theory Spec2Isabelle
  imports Complex_Main "HOL-Library.Word" "HOL-Library.Sublist"
begin

unbundle bit_operations_syntax

section \<open>JavaScript strings\<close>

text \<open>
  A JavaScript string is a sequence of 16-bit code units; a \<open>Buffer\<close> or \<open>Uint8Array\<close>
  is a sequence of bytes. String literals of the source are written \<open>lit ''...''\<close>,
  and ASCII bytes \<open>bytesOf ''...''\<close>.
\<close>

type_synonym byte = "8 word"
type_synonym unit16 = "16 word"
type_synonym jsstring = "unit16 list"

definition lit :: "string \<Rightarrow> jsstring" where
  "lit s = map of_char s"

definition bytesOf :: "string \<Rightarrow> byte list" where
  "bytesOf s = map of_char s"

definition NL :: unit16 where
  "NL = 0x0A"

text \<open>
  \<open>String.prototype.trim\<close> removes the code units of WhiteSpace and LineTerminator
  (ECMAScript) from both ends.
\<close>

definition isWhiteSpace :: "unit16 \<Rightarrow> bool" where
  "isWhiteSpace u \<longleftrightarrow>
     u \<in> set [0x09, 0x0A, 0x0B, 0x0C, 0x0D, 0x20, 0xA0, 0x1680, 0x2028, 0x2029,
               0x202F, 0x205F, 0x3000, 0xFEFF]
     \<or> (0x2000 \<le> u \<and> u \<le> 0x200A)"

definition trim :: "jsstring \<Rightarrow> jsstring" where
  "trim s = rev (dropWhile isWhiteSpace (rev (dropWhile isWhiteSpace s)))"

text \<open>
  \<open>s.split(sep)\<close>: the occurrences of \<open>sep\<close> are found from the left and do not
  overlap; the result of a non-empty separator is never the empty array.
\<close>

function splitOn :: "'a list \<Rightarrow> 'a list \<Rightarrow> 'a list list" where
  "splitOn sep [] = (if sep = [] then [] else [[]])"
| "splitOn sep (c # cs) =
     (if sep = [] then map (\<lambda>x. [x]) (c # cs)
      else if prefix sep (c # cs) then [] # splitOn sep (drop (length sep) (c # cs))
      else (case splitOn sep cs of [] \<Rightarrow> [[c]] | x # xs \<Rightarrow> (c # x) # xs))"
  by pat_completeness auto
termination
  by (relation "measure (\<lambda>(sep, s). length s)") auto

text \<open>\<open>parts.pop() ?? ""\<close>: the last element, removed from the array.\<close>

definition pop :: "jsstring list \<Rightarrow> jsstring list \<times> jsstring" where
  "pop xs = (if xs = [] then ([], []) else (butlast xs, last xs))"

text \<open>The template literal \<open>`${n}`\<close> and \<open>String(n)\<close> of a non-negative integer.\<close>

definition digit :: "nat \<Rightarrow> unit16" where
  "digit d = of_nat (48 + d)"

function showNat :: "nat \<Rightarrow> jsstring" where
  "showNat n = (if n < 10 then [digit n] else showNat (n div 10) @ [digit (n mod 10)])"
  by pat_completeness auto
termination
  by (relation "measure id") auto

section \<open>Decoding UTF-8\<close>

text \<open>
  The UTF-8 decoder of the Encoding Standard, which \<open>TextDecoder\<close> runs and whose
  replacement of ill-formed input by U+FFFD \<open>Buffer.prototype.toString\<close> shares.
\<close>

record utf8_decoder =
  code_point :: "32 word"
  bytes_seen :: nat
  bytes_needed :: nat
  lower_boundary :: byte
  upper_boundary :: byte

definition utf8_init :: utf8_decoder where
  "utf8_init = \<lparr>code_point = 0, bytes_seen = 0, bytes_needed = 0,
                 lower_boundary = 0x80, upper_boundary = 0xBF\<rparr>"

definition lead_byte :: "byte \<Rightarrow> utf8_decoder \<times> 32 word list" where
  "lead_byte b =
     (if b \<le> 0x7F then (utf8_init, [ucast b])
      else if 0xC2 \<le> b \<and> b \<le> 0xDF then
        (utf8_init\<lparr>bytes_needed := 1, code_point := ucast (b AND 0x1F)\<rparr>, [])
      else if 0xE0 \<le> b \<and> b \<le> 0xEF then
        (utf8_init\<lparr>lower_boundary := (if b = 0xE0 then 0xA0 else 0x80),
                    upper_boundary := (if b = 0xED then 0x9F else 0xBF),
                    bytes_needed := 2, code_point := ucast (b AND 0x0F)\<rparr>, [])
      else if 0xF0 \<le> b \<and> b \<le> 0xF4 then
        (utf8_init\<lparr>lower_boundary := (if b = 0xF0 then 0x90 else 0x80),
                    upper_boundary := (if b = 0xF4 then 0x8F else 0xBF),
                    bytes_needed := 3, code_point := ucast (b AND 0x07)\<rparr>, [])
      else (utf8_init, [0xFFFD]))"

definition utf8_step :: "utf8_decoder \<Rightarrow> byte \<Rightarrow> utf8_decoder \<times> 32 word list" where
  "utf8_step d b =
     (if bytes_needed d = 0 then lead_byte b
      else if b < lower_boundary d \<or> upper_boundary d < b then
        (case lead_byte b of (d', out) \<Rightarrow> (d', 0xFFFD # out))
      else
        (let cp = push_bit 6 (code_point d) OR ucast (b AND 0x3F) in
         if bytes_seen d + 1 = bytes_needed d then (utf8_init, [cp])
         else (d\<lparr>code_point := cp, bytes_seen := bytes_seen d + 1,
                 lower_boundary := 0x80, upper_boundary := 0xBF\<rparr>, [])))"

fun utf8_run :: "utf8_decoder \<Rightarrow> byte list \<Rightarrow> utf8_decoder \<times> 32 word list" where
  "utf8_run d [] = (d, [])"
| "utf8_run d (b # bs) =
     (case utf8_step d b of (d', out) \<Rightarrow>
        (case utf8_run d' bs of (d'', out') \<Rightarrow> (d'', out @ out')))"

definition utf8_end :: "utf8_decoder \<Rightarrow> 32 word list" where
  "utf8_end d = (if bytes_needed d \<noteq> 0 then [0xFFFD] else [])"

definition utf16 :: "32 word \<Rightarrow> jsstring" where
  "utf16 cp =
     (if cp < 0x10000 then [ucast cp]
      else [ucast (0xD800 + drop_bit 10 (cp - 0x10000)),
            ucast (0xDC00 + ((cp - 0x10000) AND 0x3FF))])"

text \<open>
  \<open>chunk.toString()\<close> of a \<open>Buffer\<close>: every call decodes its own bytes from the
  initial state and ends the input there.
\<close>

definition toString :: "byte list \<Rightarrow> jsstring" where
  "toString bytes =
     (case utf8_run utf8_init bytes of (d, out) \<Rightarrow> concat (map utf16 (out @ utf8_end d)))"

text \<open>
  \<open>decoder.decode(value, {stream: true})\<close> of a \<open>TextDecoder\<close>: the decoder state
  lives across calls, the input is not ended, and a byte order mark that opens the stream
  is dropped.
\<close>

record text_decoder =
  utf8 :: utf8_decoder
  bomSeen :: bool

definition newTextDecoder :: text_decoder where
  "newTextDecoder = \<lparr>utf8 = utf8_init, bomSeen = False\<rparr>"

definition decode_stream :: "text_decoder \<Rightarrow> byte list \<Rightarrow> text_decoder \<times> jsstring" where
  "decode_stream td bytes =
     (case utf8_run (utf8 td) bytes of (d, out) \<Rightarrow>
        (if bomSeen td then (\<lparr>utf8 = d, bomSeen = True\<rparr>, concat (map utf16 out))
         else (case out of
                 [] \<Rightarrow> (\<lparr>utf8 = d, bomSeen = False\<rparr>, [])
               | c # rest \<Rightarrow>
                   (\<lparr>utf8 = d, bomSeen = True\<rparr>,
                    concat (map utf16 (if c = 0xFEFF then rest else c # rest))))))"

section \<open>JSON values and exceptions\<close>

text \<open>
  The values \<open>JSON.parse\<close> returns. A number is a double: a rational, or an infinity
  when the literal overflows (\<open>Finite 0\<close> is either zero). An object is the list of its
  own properties, each name once. The parser itself is the platform's: every function
  that calls \<open>JSON.parse\<close> takes it as the argument \<open>parse\<close>, \<open>None\<close> when it throws.
\<close>

datatype number = Finite rat | PosInfinity | NegInfinity

datatype json =
    JNull
  | JBool bool
  | JNum number
  | JStr jsstring
  | JArr "json list"
  | JObj "(jsstring \<times> json) list"

type_synonym parser = "jsstring \<Rightarrow> json option"

datatype exn = AbortError | JsError jsstring | Thrown

text \<open>
  Truthiness of a value and of a property that may be \<open>undefined\<close> (\<open>None\<close>).
\<close>

fun truthy :: "json \<Rightarrow> bool" where
  "truthy JNull = False"
| "truthy (JBool b) = b"
| "truthy (JNum n) = (n \<noteq> Finite 0)"
| "truthy (JStr s) = (s \<noteq> [])"
| "truthy (JArr xs) = True"
| "truthy (JObj kvs) = True"

definition truthyOpt :: "json option \<Rightarrow> bool" where
  "truthyOpt v = (case v of None \<Rightarrow> False | Some x \<Rightarrow> truthy x)"

text \<open>
  \<open>v.k\<close> for the property names read in the sources (\<open>type\<close>, \<open>stage\<close>,
  \<open>detail\<close>, \<open>data\<close>, \<open>message\<close>, \<open>url\<close>, \<open>maxPages\<close>), which no prototype
  defines: the own property of an object, \<open>undefined\<close> on every other value. On
  \<open>null\<close> the read throws; the functions below treat that case before they read.
\<close>

fun field :: "jsstring \<Rightarrow> json \<Rightarrow> json option" where
  "field k (JObj kvs) = map_of kvs k"
| "field k v = None"

text \<open>\<open>v ?? d\<close>\<close>

definition orElse :: "json option \<Rightarrow> json \<Rightarrow> json" where
  "orElse v d = (case v of None \<Rightarrow> d | Some JNull \<Rightarrow> d | Some x \<Rightarrow> x)"

section \<open>The gateway, local worker process (route.ts)\<close>

text \<open>
  The \<open>ReadableStream\<close> controller: the frames enqueued so far, as the texts handed to
  the encoder, and whether the stream is closed. Enqueueing on or closing a closed
  controller throws.
\<close>

record controller =
  queue :: "jsstring list"
  closed :: bool

definition enqueue :: "controller \<Rightarrow> jsstring \<Rightarrow> exn + controller" where
  "enqueue c x =
     (if closed c then Inl (JsError (lit ''Invalid state: Controller is already closed''))
      else Inr (c\<lparr>queue := queue c @ [x]\<rparr>))"

definition close :: "controller \<Rightarrow> exn + controller" where
  "close c =
     (if closed c then Inl (JsError (lit ''Invalid state: Controller is already closed''))
      else Inr (c\<lparr>closed := True\<rparr>))"

definition frame :: "jsstring \<Rightarrow> jsstring" where
  "frame payload = lit ''data: '' @ payload @ [NL, NL]"

definition doneFrame :: jsstring where
  "doneFrame = lit ''data: [DONE]'' @ [NL, NL]"

text \<open>
  \<open>try { JSON.parse(text); controller.enqueue(...) } catch { }\<close>: a text that does not
  parse is skipped, and so is a throw of \<open>enqueue\<close>.
\<close>

definition forward :: "parser \<Rightarrow> controller \<Rightarrow> jsstring \<Rightarrow> controller" where
  "forward parse c text =
     (case parse text of
        None \<Rightarrow> c
      | Some v \<Rightarrow> (case enqueue c (frame text) of Inl e \<Rightarrow> c | Inr c' \<Rightarrow> c'))"

definition forwardLine :: "parser \<Rightarrow> controller \<Rightarrow> jsstring \<Rightarrow> controller" where
  "forwardLine parse c line =
     (let trimmed = trim line in if trimmed = [] then c else forward parse c trimmed)"

record supervisor =
  buffer :: jsstring
  ctrl :: controller

definition spawned :: supervisor where
  "spawned = \<lparr>buffer = [], ctrl = \<lparr>queue = [], closed = False\<rparr>\<rparr>"

text \<open>The body of the \<open>data\<close> handler after \<open>chunk.toString()\<close>.\<close>

definition onText :: "parser \<Rightarrow> supervisor \<Rightarrow> jsstring \<Rightarrow> supervisor" where
  "onText parse st text =
     (case pop (splitOn [NL] (buffer st @ text)) of
        (lines, rest) \<Rightarrow> \<lparr>buffer = rest, ctrl = foldl (forwardLine parse) (ctrl st) lines\<rparr>)"

definition onData :: "parser \<Rightarrow> supervisor \<Rightarrow> byte list \<Rightarrow> supervisor" where
  "onData parse st chunk = onText parse st (toString chunk)"

text \<open>
  The \<open>close\<close> handler. When it throws the controller was closed before, nothing was
  enqueued, and the state is as it was.
\<close>

definition onClose :: "parser \<Rightarrow> supervisor \<Rightarrow> exn + supervisor" where
  "onClose parse st =
     (let c1 = (if trim (buffer st) \<noteq> [] then forward parse (ctrl st) (trim (buffer st))
                else ctrl st)
      in case enqueue c1 doneFrame of
           Inl e \<Rightarrow> Inl e
         | Inr c2 \<Rightarrow> (case close c2 of Inl e \<Rightarrow> Inl e | Inr c3 \<Rightarrow> Inr (st\<lparr>ctrl := c3\<rparr>)))"

text \<open>
  \<open>JSON.stringify({type: "error", message: m})\<close>; \<open>quote\<close> is the platform's quoting
  of a JSON string.
\<close>

definition errEvent :: "(jsstring \<Rightarrow> jsstring) \<Rightarrow> jsstring \<Rightarrow> jsstring" where
  \<open>errEvent quote m = lit ''{"type":"error","message":'' @ quote m @ lit ''}''\<close>

definition onError :: "(jsstring \<Rightarrow> jsstring) \<Rightarrow> jsstring \<Rightarrow> supervisor \<Rightarrow> exn + supervisor" where
  "onError quote m st =
     (case enqueue (ctrl st) (frame (errEvent quote m)) of
        Inl e \<Rightarrow> Inl e
      | Inr c1 \<Rightarrow> (case close c1 of Inl e \<Rightarrow> Inl e | Inr c2 \<Rightarrow> Inr (st\<lparr>ctrl := c2\<rparr>)))"

text \<open>The quoting of a text that has no character to escape.\<close>

definition quotePlain :: "jsstring \<Rightarrow> jsstring" where
  "quotePlain m = [0x22] @ m @ [0x22]"

text \<open>The bytes of the outbound stream, as text.\<close>

definition outbound :: "supervisor \<Rightarrow> jsstring" where
  "outbound st = concat (queue (ctrl st))"

section \<open>The gateway endpoint\<close>

text \<open>
  What the handler of the local realization takes from Node: the two paths, \<open>String\<close>
  applied to \<open>maxPages\<close> (which throws on an object that cannot be converted), and the
  spawning of the worker in \<open>start\<close>: \<open>spawn\<close> gives \<open>Some\<close> exception when
  \<open>start\<close> throws in it, from \<open>spawn\<close> itself (an argument that is not a string or
  holds a NUL, a refusal of the operating system) or from attaching the handlers to a
  child that has no \<open>stdout\<close>, and \<open>None\<close> when the child is there with its handlers.
\<close>

record node =
  PYTHON_BIN :: jsstring
  SCRIPT_PATH :: jsstring
  String_of :: "json \<Rightarrow> exn + jsstring"
  spawn :: "jsstring \<Rightarrow> json list \<Rightarrow> exn option"

datatype upstream = Unreachable | Upstream nat "jsstring option"

text \<open>
  What becomes of a request: the 400 answer, an exception that leaves the handler (no
  answer of the handler and no stream), the stream of a spawned worker with the worker's
  arguments, a stream with a fixed body, or the relayed body of the service.
\<close>

datatype response =
    BadRequest jsstring
  | Throws exn
  | Spawn "json list"
  | Fixed jsstring
  | Relay jsstring

definition urlRequired :: jsstring where
  \<open>urlRequired = lit ''{"error":"url is required"}''\<close>

text \<open>
  The local realization; \<open>body\<close> is the value of \<open>request.json()\<close> (a body that
  is not JSON makes \<open>request.json()\<close> reject before anything is read). Destructuring
  \<open>null\<close> throws; the messages are V8's. \<open>maxPages\<close> is 5 when the body has none. The stream's \<open>start\<close>
  runs inside the constructor of the stream: the arguments
  \<open>[SCRIPT_PATH, url, String(maxPages), "--json"]\<close> are built and \<open>spawn\<close> is called
  there, and an exception of either leaves the handler.
\<close>

definition POST_local :: "node \<Rightarrow> json \<Rightarrow> response" where
  "POST_local env body =
     (case body of
        JNull \<Rightarrow> Throws (JsError (lit ''Cannot destructure property 'url' of '(intermediate value)' as it is null.''))
      | _ \<Rightarrow>
          (case field (lit ''url'') body of
             None \<Rightarrow> BadRequest urlRequired
           | Some u \<Rightarrow>
               if \<not> truthy u then BadRequest urlRequired
               else
                 (case String_of env (case field (lit ''maxPages'') body of
                                        None \<Rightarrow> JNum (Finite 5) | Some m \<Rightarrow> m) of
                    Inl e \<Rightarrow> Throws e
                  | Inr pages \<Rightarrow>
                      (case spawn env (PYTHON_BIN env)
                              [JStr (SCRIPT_PATH env), u, JStr pages, JStr (lit ''--json'')] of
                         Some e \<Rightarrow> Throws e
                       | None \<Rightarrow>
                           Spawn [JStr (SCRIPT_PATH env), u, JStr pages, JStr (lit ''--json'')]))))"

definition ok :: "nat \<Rightarrow> bool" where
  "ok st \<longleftrightarrow> 200 \<le> st \<and> st \<le> 299"

text \<open>
  The remote realization: \<open>up\<close> is what \<open>fetch\<close> of the analysis service gives, its
  rejection (\<open>Unreachable\<close>) or the status and body of the upstream response. Reading
  \<open>body.url\<close> of \<open>null\<close> throws.
\<close>

definition POST_remote :: "(jsstring \<Rightarrow> jsstring) \<Rightarrow> upstream \<Rightarrow> json \<Rightarrow> response" where
  "POST_remote quote up body =
     (case body of
        JNull \<Rightarrow> Throws (JsError (lit ''Cannot read properties of null (reading 'url')''))
      | _ \<Rightarrow>
          if \<not> truthyOpt (field (lit ''url'') body) then BadRequest urlRequired
          else (case up of
                  Unreachable \<Rightarrow>
                    Fixed (frame (errEvent quote (lit ''Analysis service unavailable'')) @ doneFrame)
                | Upstream st b \<Rightarrow>
                    (case b of
                       None \<Rightarrow>
                         Fixed (frame (errEvent quote (lit ''Service error: '' @ showNat st))
                                @ doneFrame)
                     | Some text \<Rightarrow>
                         if \<not> ok st
                         then Fixed (frame (errEvent quote (lit ''Service error: '' @ showNat st))
                                     @ doneFrame)
                         else Relay text)))"

definition opensStream :: "response \<Rightarrow> bool" where
  "opensStream r = (case r of BadRequest e \<Rightarrow> False | Throws e \<Rightarrow> False | _ \<Rightarrow> True)"

definition startsWorker :: "response \<Rightarrow> bool" where
  "startsWorker r = (case r of Spawn args \<Rightarrow> True | _ \<Rightarrow> False)"

section \<open>The client reducer (useAnalysis.ts)\<close>

datatype Status = Idle | Loading | Complete | Error

text \<open>
  \<open>AnalysisState\<close> and \<open>ProgressStep\<close> are declared in \<open>lib/types\<close>; their
  fields are those of \<open>INITIAL_STATE\<close> and of the step built in \<open>analyze\<close>. The
  fields hold what the event carried, whatever its type. A label is a string
  (\<open>Text\<close>), the member of \<open>Object.prototype\<close> that \<open>STAGE_LABELS[stage]\<close> inherits
  under that name (\<open>Inherited\<close>), or a stage that is no string and was returned by
  \<open>?? stage\<close> (\<open>Value\<close>).
\<close>

datatype label = Text jsstring | Inherited jsstring | Value json

record ProgressStep =
  stage :: json
  detail :: "json option"
  label :: label

record AnalysisState =
  status :: Status
  progressSteps :: "ProgressStep list"
  currentStage :: label
  result :: "json option"
  error :: "json option"

definition STAGE_LABELS :: "(jsstring \<times> jsstring) list" where
  "STAGE_LABELS =
     [(lit ''domain'', lit ''Checking domain strategy''),
      (lit ''robots'', lit ''Fetching robots.txt''),
      (lit ''sitemap'', lit ''Fetching sitemap.xml''),
      (lit ''agent_files'', lit ''Checking AI agent files (llms.txt)''),
      (lit ''page'', lit ''Analyzing page''),
      (lit ''internal_links'', lit ''Analyzing internal link structure''),
      (lit ''complete'', lit ''Finalizing results'')]"

definition objectPrototype :: "jsstring list" where
  "objectPrototype =
     [lit ''constructor'', lit ''__defineGetter__'', lit ''__defineSetter__'',
      lit ''hasOwnProperty'', lit ''__lookupGetter__'', lit ''__lookupSetter__'',
      lit ''isPrototypeOf'', lit ''propertyIsEnumerable'', lit ''toString'',
      lit ''valueOf'', lit ''__proto__'', lit ''toLocaleString'']"

text \<open>
  \<open>STAGE_LABELS[stage]\<close> turns the stage into a property key. That conversion throws
  on an object with an own property \<open>toString\<close> (which no JSON value can call) and on
  an array that holds such an object (\<open>keyThrows\<close>). Otherwise the key is the stage
  itself when it is a string, the key of the one element of a one-element array (the
  empty string for \<open>null\<close>), the empty string for the empty array, and in every other
  case (\<open>keyText\<close> gives \<open>None\<close>) a text that is no name of \<open>STAGE_LABELS\<close> or
  \<open>Object.prototype\<close>: digits of a number, \<open>true\<close>, \<open>false\<close>,
  \<open>[object Object]\<close>, or a text with a comma.
\<close>

fun keyThrows :: "json \<Rightarrow> bool" where
  "keyThrows (JObj kvs) = (lit ''toString'' \<in> fst ` set kvs)"
| "keyThrows (JArr xs) = (\<exists>x\<in>set xs. keyThrows x)"
| "keyThrows v = False"

fun keyText :: "json \<Rightarrow> jsstring option" where
  "keyText (JStr s) = Some s"
| "keyText (JArr []) = Some []"
| "keyText (JArr [x]) = (case x of JNull \<Rightarrow> Some [] | _ \<Rightarrow> keyText x)"
| "keyText v = None"

text \<open>\<open>STAGE_LABELS[stage] ?? stage\<close>; the messages of the exceptions are V8's.\<close>

definition fallback :: "json \<Rightarrow> label" where
  "fallback stg = (case stg of JStr s \<Rightarrow> Text s | _ \<Rightarrow> Value stg)"

definition lookupLabel :: "json \<Rightarrow> exn + label" where
  "lookupLabel stg =
     (if keyThrows stg then Inl (JsError (lit ''Cannot convert object to primitive value''))
      else (case keyText stg of
              None \<Rightarrow> Inr (fallback stg)
            | Some k \<Rightarrow>
                (case map_of STAGE_LABELS k of
                   Some l \<Rightarrow> Inr (Text l)
                 | None \<Rightarrow> if k \<in> set objectPrototype then Inr (Inherited k)
                           else Inr (fallback stg))))"

text \<open>\<open>detail.replace(/^https?:\/\//, "")\<close>\<close>

definition stripScheme :: "jsstring \<Rightarrow> jsstring" where
  "stripScheme d =
     (if prefix (lit ''https://'') d then drop 8 d
      else if prefix (lit ''http://'') d then drop 7 d
      else d)"

text \<open>
  \<open>stageLabel\<close>: with the stage \<open>page\<close> and a truthy detail, \<open>detail.replace\<close> is
  called, which is a function only when the detail is a string.
\<close>

definition stageLabel :: "json \<Rightarrow> json option \<Rightarrow> exn + label" where
  "stageLabel stg det =
     (if stg = JStr (lit ''page'') \<and> truthyOpt det
      then (case det of
              Some (JStr d) \<Rightarrow> Inr (Text (lit ''Analyzing: '' @ take 55 (stripScheme d)))
            | _ \<Rightarrow> Inl (JsError (lit ''detail.replace is not a function'')))
      else lookupLabel stg)"

definition INITIAL_STATE :: AnalysisState where
  "INITIAL_STATE = \<lparr>status = Idle, progressSteps = [], currentStage = Text [],
                     result = None, error = None\<rparr>"

definition loadingState :: AnalysisState where
  "loadingState = \<lparr>status = Loading, progressSteps = [],
                    currentStage = Text (lit ''Starting analysis...''),
                    result = None, error = None\<rparr>"

text \<open>
  The dispatch on \<open>event.type\<close> (lines 98 to 122), on the value \<open>JSON.parse\<close>
  returned. Reading \<open>.type\<close> of \<open>null\<close> throws a \<open>TypeError\<close>, and so may
  \<open>stageLabel\<close>; the step is built and the state set only after the label was derived.
\<close>

definition applyEvent :: "json \<Rightarrow> AnalysisState \<Rightarrow> exn + AnalysisState" where
  "applyEvent e s =
     (case e of
        JNull \<Rightarrow> Inl (JsError (lit ''Cannot read properties of null (reading 'type')''))
      | _ \<Rightarrow>
          if field (lit ''type'') e = Some (JStr (lit ''progress'')) then
            (let stg = orElse (field (lit ''stage'') e) (JStr []);
                 det = field (lit ''detail'') e
             in case stageLabel stg det of
                  Inl x \<Rightarrow> Inl x
                | Inr lbl \<Rightarrow>
                    Inr (s\<lparr>currentStage := lbl,
                           progressSteps := progressSteps s
                             @ [\<lparr>stage = stg, detail = det, label = lbl\<rparr>]\<rparr>))
          else if field (lit ''type'') e = Some (JStr (lit ''result''))
                  \<and> truthyOpt (field (lit ''data'') e) then
            Inr (s\<lparr>status := Complete, result := field (lit ''data'') e,
                   currentStage := Text (lit ''Complete'')\<rparr>)
          else if field (lit ''type'') e = Some (JStr (lit ''error'')) then
            Inr (s\<lparr>status := Error,
                   error := Some (orElse (field (lit ''message'') e)
                                         (JStr (lit ''Unknown error'')))\<rparr>)
          else Inr s)"

text \<open>One part of the transport stream: the body of the \<open>for\<close> loop (lines 77 to 123).\<close>

definition decodePart :: "parser \<Rightarrow> jsstring \<Rightarrow> json option" where
  "decodePart parse part =
     (case find (\<lambda>l. prefix (lit ''data: '') l) (splitOn [NL] part) of
        None \<Rightarrow> None
      | Some dataLine \<Rightarrow>
          (let raw = trim (drop 6 dataLine) in
           if raw = lit ''[DONE]'' then None else parse raw))"

definition processPart :: "parser \<Rightarrow> AnalysisState \<Rightarrow> jsstring \<Rightarrow> exn + AnalysisState" where
  "processPart parse s part =
     (case decodePart parse part of None \<Rightarrow> Inr s | Some p \<Rightarrow> applyEvent p s)"

text \<open>
  The \<open>for\<close> loop over the parts of one chunk: an exception leaves the loop with the
  state the earlier parts have made.
\<close>

fun processParts ::
  "parser \<Rightarrow> AnalysisState \<Rightarrow> jsstring list \<Rightarrow> exn option \<times> AnalysisState" where
  "processParts parse s [] = (None, s)"
| "processParts parse s (part # parts) =
     (case processPart parse s part of
        Inl e \<Rightarrow> (Some e, s)
      | Inr s' \<Rightarrow> processParts parse s' parts)"

text \<open>The \<open>catch\<close> handler (lines 125 to 132).\<close>

definition catchHandler :: "exn \<Rightarrow> AnalysisState \<Rightarrow> AnalysisState" where
  "catchHandler e s =
     (case e of
        AbortError \<Rightarrow> s
      | JsError m \<Rightarrow> s\<lparr>status := Error, error := Some (JStr m)\<rparr>
      | Thrown \<Rightarrow> s\<lparr>status := Error, error := Some (JStr (lit ''Unknown error''))\<rparr>)"

text \<open>
  Kinds of decoded parts: an Error event, a Result event with a truthy payload, and a
  part that reads at the type the source declares for \<open>event\<close>: it is not \<open>null\<close>,
  and when it is a progress event its \<open>stage\<close> and \<open>detail\<close> are strings, \<open>null\<close>
  or absent.
\<close>

definition isErrorEvent :: "json option \<Rightarrow> bool" where
  "isErrorEvent p =
     (case p of Some e \<Rightarrow> field (lit ''type'') e = Some (JStr (lit ''error'')) | None \<Rightarrow> False)"

definition isResultEvent :: "json option \<Rightarrow> bool" where
  "isResultEvent p =
     (case p of
        Some e \<Rightarrow> field (lit ''type'') e = Some (JStr (lit ''result''))
                  \<and> truthyOpt (field (lit ''data'') e)
      | None \<Rightarrow> False)"

definition stringOrAbsent :: "json option \<Rightarrow> bool" where
  "stringOrAbsent v =
     (case v of None \<Rightarrow> True | Some JNull \<Rightarrow> True | Some (JStr s) \<Rightarrow> True | _ \<Rightarrow> False)"

definition declared :: "json option \<Rightarrow> bool" where
  "declared p =
     (case p of
        None \<Rightarrow> True
      | Some e \<Rightarrow>
          e \<noteq> JNull
          \<and> (if field (lit ''type'') e = Some (JStr (lit ''progress''))
             then stringOrAbsent (field (lit ''stage'') e)
                  \<and> stringOrAbsent (field (lit ''detail'') e)
             else True))"

text \<open>
  The states the hook can hold: the initial one (also after \<open>reset\<close>), the one
  \<open>analyze\<close> sets, and what the event dispatch and the \<open>catch\<close> handler make of
  such a state.
\<close>

inductive reachable :: "AnalysisState \<Rightarrow> bool" where
  initial: "reachable INITIAL_STATE"
| started: "reachable loadingState"
| applied: "reachable s \<Longrightarrow> applyEvent p s = Inr s' \<Longrightarrow> reachable s'"
| caught: "reachable s \<Longrightarrow> reachable (catchHandler e s)"

section \<open>Jobs of the client\<close>

text \<open>
  Every call of \<open>analyze\<close> is a job with an \<open>AbortController\<close> of its own; jobs
  and controllers are numbered in the order of the calls. A job waits for its \<open>fetch\<close>,
  then for each \<open>reader.read()\<close>, holding its decoder and \<open>sseBuffer\<close>. What it
  waits for settles with one of \<open>settled\<close>; once the job's controller is aborted it
  settles with an \<open>AbortError\<close>, whatever the network had to deliver.
\<close>

datatype phase = Fetching | Reading text_decoder jsstring | Finished

datatype settled =
    FetchRejected jsstring
  | Responded nat bool
  | Chunk "byte list"
  | Done
  | ReadRejected jsstring

record client =
  ui :: "AnalysisState"
  abortRef :: "nat option"
  aborted :: "nat set"
  jobs :: "nat \<Rightarrow> phase"
  nextId :: nat

definition mounted :: "client" where
  "mounted = \<lparr>ui = INITIAL_STATE, abortRef = None, aborted = {}, jobs = (\<lambda>j. Finished),
               nextId = 0\<rparr>"

definition abortCurrent :: "client \<Rightarrow> client" where
  "abortCurrent c =
     (case abortRef c of None \<Rightarrow> c | Some k \<Rightarrow> c\<lparr>aborted := insert k (aborted c)\<rparr>)"

definition analyze :: "client \<Rightarrow> client" where
  "analyze c =
     (let c1 = abortCurrent c; n = nextId c
      in c1\<lparr>abortRef := Some n, nextId := Suc n, ui := loadingState,
             jobs := (jobs c1)(n := Fetching)\<rparr>)"

definition reset :: "client \<Rightarrow> client" where
  "reset c = (abortCurrent c)\<lparr>ui := INITIAL_STATE\<rparr>"

definition throw :: "exn \<Rightarrow> nat \<Rightarrow> client \<Rightarrow> client" where
  "throw e j c = c\<lparr>ui := catchHandler e (ui c), jobs := (jobs c)(j := Finished)\<rparr>"

text \<open>One turn of the \<open>while\<close> loop on a chunk (lines 73 to 123).\<close>

definition readChunk ::
  "parser \<Rightarrow> text_decoder \<Rightarrow> jsstring \<Rightarrow> byte list \<Rightarrow> nat \<Rightarrow> client \<Rightarrow> client" where
  "readChunk parse td sseBuffer bytes j c =
     (case decode_stream td bytes of (td', text) \<Rightarrow>
        (case pop (splitOn [NL, NL] (sseBuffer @ text)) of (parts, rest) \<Rightarrow>
           (case processParts parse (ui c) parts of
              (None, s) \<Rightarrow> c\<lparr>ui := s, jobs := (jobs c)(j := Reading td' rest)\<rparr>
            | (Some e, s) \<Rightarrow> throw e j (c\<lparr>ui := s\<rparr>))))"

definition settle :: "parser \<Rightarrow> nat \<Rightarrow> settled \<Rightarrow> client \<Rightarrow> client" where
  "settle parse j x c =
     (case jobs c j of
        Finished \<Rightarrow> c
      | Fetching \<Rightarrow>
          if j \<in> aborted c then throw AbortError j c
          else (case x of
                  FetchRejected m \<Rightarrow> throw (JsError m) j c
                | Responded st hasBody \<Rightarrow>
                    if \<not> ok st \<or> \<not> hasBody then throw (JsError (lit ''HTTP '' @ showNat st)) j c
                    else c\<lparr>jobs := (jobs c)(j := Reading newTextDecoder [])\<rparr>
                | _ \<Rightarrow> c)
      | Reading td sseBuffer \<Rightarrow>
          if j \<in> aborted c then throw AbortError j c
          else (case x of
                  Chunk bytes \<Rightarrow> readChunk parse td sseBuffer bytes j c
                | Done \<Rightarrow> c\<lparr>jobs := (jobs c)(j := Finished)\<rparr>
                | ReadRejected m \<Rightarrow> throw (JsError m) j c
                | _ \<Rightarrow> c))"

definition run :: "parser \<Rightarrow> client \<Rightarrow> (nat \<times> settled) list \<Rightarrow> client" where
  "run parse c trace = foldl (\<lambda>c (j, x). settle parse j x c) c trace"

text \<open>
  What holds of the client between two calls: a job that still waits is the one of
  \<open>abortRef\<close> or is aborted, and the numbers in use are below \<open>nextId\<close>.
\<close>

definition wf :: "client \<Rightarrow> bool" where
  "wf c \<longleftrightarrow>
     (\<forall>j. jobs c j \<noteq> Finished \<longrightarrow> abortRef c = Some j \<or> j \<in> aborted c) \<and>
     (\<forall>j. abortRef c = Some j \<or> j \<in> aborted c \<longrightarrow> j < nextId c)"

text \<open>
  Once job \<open>b\<close> is the current one, every other job is finished or aborted
  (\<open>others_done\<close>); two clients are alike for \<open>b\<close> when they agree on the state, on
  the aborted controllers and on what \<open>b\<close> holds (\<open>same_job\<close>).
\<close>

definition others_done :: "nat \<Rightarrow> client \<Rightarrow> bool" where
  "others_done b c \<longleftrightarrow> (\<forall>j. j \<noteq> b \<longrightarrow> jobs c j = Finished \<or> j \<in> aborted c)"

definition same_job :: "nat \<Rightarrow> client \<Rightarrow> client \<Rightarrow> bool" where
  "same_job b c1 c2 \<longleftrightarrow> ui c1 = ui c2 \<and> aborted c1 = aborted c2 \<and> jobs c1 b = jobs c2 b"

section \<open>Tables of the platform for the concrete runs\<close>

text \<open>
  A finite part of \<open>JSON.parse\<close>: each text listed is JSON with the value listed, and
  the other texts used with it (\<open>oops\<close>, \<open>[DONE]\<close>) are not JSON.
\<close>

definition scorePayload :: json where
  "scorePayload = JObj [(lit ''score'', JNum (Finite 80))]"

definition progressDomain :: json where
  "progressDomain =
     JObj [(lit ''type'', JStr (lit ''progress'')), (lit ''stage'', JStr (lit ''domain''))]"

definition progressStage :: "jsstring \<Rightarrow> json" where
  "progressStage s = JObj [(lit ''type'', JStr (lit ''progress'')), (lit ''stage'', JStr s)]"

definition progressPage123 :: json where
  "progressPage123 =
     JObj [(lit ''type'', JStr (lit ''progress'')), (lit ''stage'', JStr (lit ''page'')),
           (lit ''detail'', JNum (Finite 123))]"

definition resultScore :: json where
  "resultScore = JObj [(lit ''type'', JStr (lit ''result'')), (lit ''data'', scorePayload)]"

definition errorBoom :: json where
  "errorBoom =
     JObj [(lit ''type'', JStr (lit ''error'')), (lit ''message'', JStr (lit ''boom''))]"

definition parseTable :: parser where
  \<open>parseTable =
     map_of
       [(lit ''5'', JNum (Finite 5)),
        (lit ''null'', JNull),
        (lit ''{"type":"progress","stage":"'' @ [0xE9] @ lit ''"}'', progressStage [0xE9]),
        (lit ''{"type":"progress","stage":"'' @ [0xFFFD, 0xFFFD] @ lit ''"}'',
           progressStage [0xFFFD, 0xFFFD]),
        (lit ''{"type":"progress","stage":"domain"}'', progressDomain),
        (lit ''{"type":"progress","stage":"page","detail":123}'', progressPage123),
        (lit ''{"type":"result","data":{"score":80}}'', resultScore),
        (lit ''{"type":"error","message":"boom"}'', errorBoom)]\<close>

text \<open>
  Node for the concrete runs: \<open>spawn\<close> as far as its check of the arguments goes
  (each a string without NUL; the operating system is taken to spawn what passes), and
  \<open>String\<close> at the one number used.
\<close>

definition validArg :: "json \<Rightarrow> bool" where
  "validArg a = (case a of JStr s \<Rightarrow> 0 \<notin> set s | _ \<Rightarrow> False)"

definition spawnChecked :: "jsstring \<Rightarrow> json list \<Rightarrow> exn option" where
  "spawnChecked file args =
     (if list_all validArg args then None else Some (JsError (lit ''ERR_INVALID_ARG'')))"

definition stringTable :: "json \<Rightarrow> exn + jsstring" where
  "stringTable v =
     (if v = JNum (Finite 5) then Inr (lit ''5'') else Inl (JsError (lit ''not in the table'')))"

definition nodeSample :: node where
  "nodeSample = \<lparr>PYTHON_BIN = lit ''/usr/bin/python3'', SCRIPT_PATH = lit ''seo_analyzer.py'',
                  String_of = stringTable, spawn = spawnChecked\<rparr>"

definition blankBody :: json where
  "blankBody = JObj [(lit ''url'', JStr (lit ''  ''))]"

definition nulBody :: json where
  "nulBody = JObj [(lit ''url'', JStr (lit ''https://x.com/'' @ [0]))]"

definition siteBody :: json where
  "siteBody = JObj [(lit ''url'', JStr (lit ''https://x.com''))]"

text \<open>Parts and chunks of the transport stream for the concrete runs.\<close>

definition resultFrame :: jsstring where
  \<open>resultFrame = lit ''data: {"type":"result","data":{"score":80}}''\<close>

definition errorFrame :: jsstring where
  \<open>errorFrame = lit ''data: {"type":"error","message":"boom"}''\<close>

definition progressFrame :: jsstring where
  \<open>progressFrame = lit ''data: {"type":"progress","stage":"domain"}''\<close>

definition page123Frame :: jsstring where
  \<open>page123Frame = lit ''data: {"type":"progress","stage":"page","detail":123}''\<close>

definition progressChunk :: "byte list" where
  \<open>progressChunk = bytesOf ''data: {"type":"progress","stage":"domain"}'' @ [0x0A, 0x0A]\<close>

definition resultChunk :: "byte list" where
  \<open>resultChunk = bytesOf ''data: {"type":"result","data":{"score":80}}'' @ [0x0A, 0x0A]\<close>

text \<open>The client after a first \<open>analyze\<close> whose job 0 has its response and reads.\<close>

definition reading0 :: client where
  "reading0 = settle parseTable 0 (Responded 200 True) (analyze mounted)"

text \<open>
  Worker output for the concrete runs: two lines, and the bytes of the line
  \<open>{"type":"progress","stage":"\<close>, U+00E9, \<open>"}\<close> cut between the bytes C3 and A9 of
  the character, with the text of that line.
\<close>

definition accentHead :: "byte list" where
  \<open>accentHead = bytesOf ''{"type":"progress","stage":"'' @ [0xC3]\<close>

definition accentTail :: "byte list" where
  \<open>accentTail = [0xA9] @ bytesOf ''"}'' @ [0x0A]\<close>

definition accentLine :: jsstring where
  \<open>accentLine = lit ''{"type":"progress","stage":"'' @ [0xE9] @ lit ''"}''\<close>



section \<open>Splitting\<close>

lemma splitOn_not_Nil: "sep \<noteq> [] \<Longrightarrow> splitOn sep s \<noteq> []"
  by (induction sep s rule: splitOn.induct) (auto split: list.splits)



lemma splitOn_short: "length a < length sep \<Longrightarrow> splitOn sep a = [a]"
proof (induction a)
  case Nil
  then show ?case by auto
next
  case (Cons x xs)
  then have "\<not> prefix sep (x # xs)" and "sep \<noteq> []"
    using prefix_length_le [of sep "x # xs"] by auto
  with Cons show ?case by simp
qed

lemma splitOn_single: "sep \<noteq> [] \<Longrightarrow> splitOn sep s = [x] \<Longrightarrow> x = s"
proof (induction s arbitrary: x)
  case Nil
  then show ?case by simp
next
  case (Cons c cs)
  show ?case
  proof (cases "prefix sep (c # cs)")
    case True
    with Cons.prems show ?thesis
      by (simp add: splitOn_not_Nil)
  next
    case False
    with Cons.prems obtain y where "splitOn sep cs = [y]" and "x = c # y"
      using splitOn_not_Nil [of sep cs] by (auto split: list.splits)
    with Cons show ?thesis by simp
  qed
qed

lemma splitOn_append:
  "sep \<noteq> [] \<Longrightarrow>
   splitOn sep (a @ b) = butlast (splitOn sep a) @ splitOn sep (last (splitOn sep a) @ b)"
proof (induction sep a rule: splitOn.induct)
  case (1 sep)
  then show ?case by simp
next
  case (2 sep c cs)
  note ne = \<open>sep \<noteq> []\<close>
  show ?case
  proof (cases "prefix sep (c # cs)")
    case True
    then have len: "length sep \<le> length (c # cs)"
      by (rule prefix_length_le)
    from True have pab: "prefix sep ((c # cs) @ b)"
      by (metis prefix_prefix)
    have ih: "splitOn sep (drop (length sep) (c # cs) @ b)
        = butlast (splitOn sep (drop (length sep) (c # cs)))
          @ splitOn sep (last (splitOn sep (drop (length sep) (c # cs))) @ b)"
      using "2.IH"(1) ne True by simp
    have "drop (length sep) ((c # cs) @ b)
            = drop (length sep) (c # cs) @ drop (length sep - length (c # cs)) b"
      by (rule drop_append)
    moreover have "length sep - length (c # cs) = 0"
      using len by simp
    ultimately have dr: "drop (length sep) ((c # cs) @ b) = drop (length sep) (c # cs) @ b"
      by (simp del: length_Cons)
    have l: "splitOn sep ((c # cs) @ b) = [] # splitOn sep (drop (length sep) (c # cs) @ b)"
      using ne pab dr by (metis append_Cons splitOn.simps(2))
    have r: "splitOn sep (c # cs) = [] # splitOn sep (drop (length sep) (c # cs))"
      using ne True by simp
    show ?thesis
      unfolding l r ih using splitOn_not_Nil [OF ne] by simp
  next
    case False
    show ?thesis
    proof (cases "prefix sep ((c # cs) @ b)")
      case True
      with False have "length (c # cs) < length sep"
        by (metis (no_types, lifting) append_eq_append_conv_if linorder_not_less prefix_def
            take_is_prefix)
      then have "splitOn sep (c # cs) = [c # cs]"
        by (rule splitOn_short)
      then show ?thesis by simp
    next
      case nb: False
      obtain x xs where s: "splitOn sep cs = x # xs"
        using splitOn_not_Nil [OF ne, of cs] by (cases "splitOn sep cs") auto
      have ih: "splitOn sep (cs @ b) = butlast (x # xs) @ splitOn sep (last (x # xs) @ b)"
        using "2.IH"(2) ne False s by simp
      have l: "splitOn sep ((c # cs) @ b)
                 = (case splitOn sep (cs @ b) of [] \<Rightarrow> [[c]] | y # ys \<Rightarrow> (c # y) # ys)"
        using ne nb by simp
      have r: "splitOn sep (c # cs) = (c # x) # xs"
        using ne False s by simp
      show ?thesis
      proof (cases xs)
        case Nil
        with s have "x = cs"
          using splitOn_single [OF ne] by blast
        with Nil show ?thesis
          unfolding r by simp
      next
        case (Cons z zs)
        then show ?thesis
          unfolding l r ih by simp
      qed
    qed
  qed
qed

lemma pop_splitOn:
  "sep \<noteq> [] \<Longrightarrow> pop (splitOn sep s) = (butlast (splitOn sep s), last (splitOn sep s))"
  by (simp add: pop_def splitOn_not_Nil)

lemma pop_splitOn_append:
  assumes "sep \<noteq> []"
  shows "pop (splitOn sep (a @ b))
           = (fst (pop (splitOn sep a)) @ fst (pop (splitOn sep (snd (pop (splitOn sep a)) @ b))),
              snd (pop (splitOn sep (snd (pop (splitOn sep a)) @ b))))"
proof -
  let ?S1 = "splitOn sep a"
  let ?S2 = "splitOn sep (last ?S1 @ b)"
  have ne: "?S2 \<noteq> []"
    using assms by (rule splitOn_not_Nil)
  have "splitOn sep (a @ b) = butlast ?S1 @ ?S2"
    using assms by (rule splitOn_append)
  then have "pop (splitOn sep (a @ b)) = (butlast ?S1 @ butlast ?S2, last ?S2)"
    using ne by (simp add: pop_def butlast_append)
  then show ?thesis
    using assms by (simp add: pop_splitOn)
qed

section \<open>The local gateway\<close>

lemma forward_closed [simp]: "closed (forward parse c t) = closed c"
  by (auto simp: forward_def enqueue_def split: option.splits)

lemma forwardLine_closed [simp]: "closed (forwardLine parse c l) = closed c"
  by (simp add: forwardLine_def Let_def)

lemma foldl_forwardLine_closed [simp]: "closed (foldl (forwardLine parse) c ls) = closed c"
  by (induction ls arbitrary: c) auto

lemma onText_closed [simp]: "closed (ctrl (onText parse st t)) = closed (ctrl st)"
  by (simp add: onText_def split: prod.splits)

lemma onData_closed [simp]: "closed (ctrl (onData parse st b)) = closed (ctrl st)"
  by (simp add: onData_def)

lemma run_open: "\<not> closed (ctrl (foldl (onData parse) spawned chunks))"
proof -
  have "closed (ctrl (foldl (onData parse) st chunks)) = closed (ctrl st)" for st
    by (induction chunks arbitrary: st) auto
  then show ?thesis by (simp add: spawned_def)
qed

lemma forwardLine_verbatim:
  assumes "trim line \<noteq> []" and "parse (trim line) = Some v" and "\<not> closed c"
  shows "forwardLine parse c line = c\<lparr>queue := queue c @ [lit ''data: '' @ trim line @ [NL, NL]]\<rparr>"
  using assms by (simp add: forwardLine_def forward_def enqueue_def frame_def)

text \<open>
  C7. When the worker closes after any chunks and the leftover buffer is not blank, the
  close handler parses the trimmed leftover once: if it parses, it is enqueued as one more
  frame before the sentinel, otherwise the sentinel alone is enqueued; then the stream is
  closed.
\<close>

theorem close_flushes_leftover:
  fixes parse :: "parser" and chunks :: "byte list list"
  defines "st \<equiv> foldl (onData parse) spawned chunks"
  assumes "trim (buffer st) \<noteq> []"
  shows "onClose parse st =
           Inr (st\<lparr>ctrl := \<lparr>queue = queue (ctrl st)
                                     @ (case parse (trim (buffer st)) of
                                          None \<Rightarrow> []
                                        | Some v \<Rightarrow> [frame (trim (buffer st))])
                                     @ [doneFrame],
                            closed = True\<rparr>\<rparr>)"
proof -
  have op: "\<not> closed (ctrl st)"
    unfolding st_def by (rule run_open)
  show ?thesis
    using assms(2) op
    by (cases "parse (trim (buffer st))")
       (simp_all add: onClose_def forward_def enqueue_def close_def Let_def)
qed

lemma leftover_five:
  "foldl (onData parseTable) spawned [[0x35]]
     = \<lparr>buffer = lit ''5'', ctrl = \<lparr>queue = [], closed = False\<rparr>\<rparr>"
  by code_simp

lemma trim_five: "trim (lit ''5'') = lit ''5''"
  by code_simp

lemma parse_five: "parseTable (lit ''5'') = Some (JNum (Finite 5))"
  by code_simp

theorem close_flushes_leftover_witness:
  "onClose parseTable (foldl (onData parseTable) spawned [[0x35]]) =
     Inr \<lparr>buffer = lit ''5'', ctrl = \<lparr>queue = [frame (lit ''5''), doneFrame], closed = True\<rparr>\<rparr>"
proof -
  have h: "trim (buffer (foldl (onData parseTable) spawned [[0x35]])) \<noteq> []"
    unfolding leftover_five by code_simp
  show ?thesis
    using close_flushes_leftover [OF h] unfolding leftover_five by (simp add: trim_five parse_five)
qed

section \<open>The gateway endpoint: failures and validation\<close>

text \<open>
  C3. When the worker process cannot be spawned, the local gateway's \<open>error\<close> handler
  enqueues the one Error frame and closes the stream at once; the \<open>close\<close> handler
  that follows throws on the closed controller, so the sentinel frame is never part of
  the stream. The remote gateway answers an unreachable service with the Error frame and
  the sentinel.
\<close>

theorem spawn_failure_has_no_sentinel:
  "onError quote m spawned =
     Inr \<lparr>buffer = [], ctrl = \<lparr>queue = [frame (errEvent quote m)], closed = True\<rparr>\<rparr>
   \<and> onClose parse \<lparr>buffer = [], ctrl = \<lparr>queue = [frame (errEvent quote m)], closed = True\<rparr>\<rparr>
       = Inl (JsError (lit ''Invalid state: Controller is already closed''))
   \<and> doneFrame \<notin> set [frame (errEvent quote m)]
   \<and> outbound \<lparr>buffer = [], ctrl = \<lparr>queue = [frame (errEvent quote m)], closed = True\<rparr>\<rparr>
       \<noteq> frame (errEvent quote m) @ doneFrame
   \<and> POST_remote quote Unreachable siteBody
       = Fixed (frame (errEvent quote (lit ''Analysis service unavailable'')) @ doneFrame)"
proof -
  have a: "onError quote m spawned =
     Inr \<lparr>buffer = [], ctrl = \<lparr>queue = [frame (errEvent quote m)], closed = True\<rparr>\<rparr>"
    by (simp add: onError_def spawned_def enqueue_def close_def)
  have b: "onClose parse \<lparr>buffer = [], ctrl = \<lparr>queue = [frame (errEvent quote m)], closed = True\<rparr>\<rparr>
       = Inl (JsError (lit ''Invalid state: Controller is already closed''))"
    by (simp add: onClose_def trim_def enqueue_def)
  have c: "doneFrame \<noteq> frame (errEvent quote m)"
    by (simp add: doneFrame_def frame_def errEvent_def lit_def)
  have d: "outbound \<lparr>buffer = [], ctrl = \<lparr>queue = [frame (errEvent quote m)], closed = True\<rparr>\<rparr>
       \<noteq> frame (errEvent quote m) @ doneFrame"
    by (simp add: outbound_def doneFrame_def)
  have e: "POST_remote quote Unreachable siteBody
       = Fixed (frame (errEvent quote (lit ''Analysis service unavailable'')) @ doneFrame)"
    by (simp add: POST_remote_def siteBody_def truthyOpt_def lit_def)
  from a b c d e show ?thesis by simp
qed

text \<open>
  C6, as the claim states it, fails: a \<open>url\<close> of two spaces is empty after trimming,
  yet the local gateway spawns the worker and the remote one opens a stream. And a
  \<open>url\<close> that ends in a NUL is not empty after trimming, yet \<open>spawn\<close> throws on it
  inside \<open>start\<close> and the local gateway opens no stream.
\<close>

theorem blank_url_counterexample:
  "trim (lit ''  '') = []
   \<and> POST_local nodeSample blankBody
       = Spawn [JStr (lit ''seo_analyzer.py''), JStr (lit ''  ''), JStr (lit ''5''),
                JStr (lit ''--json'')]
   \<and> opensStream (POST_remote quotePlain Unreachable blankBody)
   \<and> trim (lit ''https://x.com/'' @ [0]) \<noteq> []
   \<and> \<not> opensStream (POST_local nodeSample nulBody)"
  by code_simp

text \<open>
  C6, amended. A body that is not \<open>null\<close> and whose \<open>url\<close> is missing or falsy (the
  empty string, \<open>null\<close>, \<open>false\<close>, 0) is answered with the 400 error, no worker and
  no stream. For every body with a truthy \<open>url\<close>, a blank one included, the remote
  gateway opens a stream, and the local gateway spawns the worker with
  \<open>[SCRIPT_PATH, url, String(maxPages), "--json"]\<close> and opens its stream whenever
  \<open>String(maxPages)\<close> and \<open>spawn\<close> return.
\<close>

theorem url_validation:
  "(body \<noteq> JNull \<and> \<not> truthyOpt (field (lit ''url'') body) \<longrightarrow>
      POST_local env body = BadRequest urlRequired
      \<and> POST_remote quote up body = BadRequest urlRequired
      \<and> \<not> startsWorker (POST_local env body)
      \<and> \<not> opensStream (POST_local env body)
      \<and> \<not> opensStream (POST_remote quote up body))
   \<and> (field (lit ''url'') body = Some u \<and> truthy u \<longrightarrow>
      opensStream (POST_remote quote up body)
      \<and> (String_of env (case field (lit ''maxPages'') body of
                           None \<Rightarrow> JNum (Finite 5) | Some m \<Rightarrow> m) = Inr pages
         \<and> spawn env (PYTHON_BIN env)
              [JStr (SCRIPT_PATH env), u, JStr pages, JStr (lit ''--json'')] = None \<longrightarrow>
         POST_local env body
           = Spawn [JStr (SCRIPT_PATH env), u, JStr pages, JStr (lit ''--json'')]
         \<and> startsWorker (POST_local env body)
         \<and> opensStream (POST_local env body)))"
proof -
  have a: "POST_local env body = BadRequest urlRequired
      \<and> POST_remote quote up body = BadRequest urlRequired"
    if "body \<noteq> JNull" and "\<not> truthyOpt (field (lit ''url'') body)"
    using that
    by (cases body) (auto simp: POST_local_def POST_remote_def truthyOpt_def split: option.splits)
  have b: "opensStream (POST_remote quote up body)"
    if "field (lit ''url'') body = Some u" and "truthy u"
    using that
    by (cases body)
       (auto simp: POST_remote_def truthyOpt_def opensStream_def
             split: upstream.splits option.splits)
  have c: "POST_local env body
           = Spawn [JStr (SCRIPT_PATH env), u, JStr pages, JStr (lit ''--json'')]"
    if "field (lit ''url'') body = Some u" and "truthy u"
      and "String_of env (case field (lit ''maxPages'') body of
                           None \<Rightarrow> JNum (Finite 5) | Some m \<Rightarrow> m) = Inr pages"
      and "spawn env (PYTHON_BIN env)
              [JStr (SCRIPT_PATH env), u, JStr pages, JStr (lit ''--json'')] = None"
    using that by (cases body) (simp_all add: POST_local_def)
  show ?thesis
    using a b c by (auto simp: opensStream_def startsWorker_def)
qed

theorem url_validation_witness:
  "\<not> opensStream (POST_local nodeSample (JObj []))
   \<and> \<not> opensStream (POST_remote quotePlain Unreachable (JObj [(lit ''url'', JStr [])]))
   \<and> POST_local nodeSample (JObj [(lit ''url'', JNull)]) = BadRequest urlRequired
   \<and> startsWorker (POST_local nodeSample siteBody)
   \<and> opensStream (POST_remote quotePlain Unreachable siteBody)"
proof -
  have f1: "JObj [] \<noteq> JNull \<and> \<not> truthyOpt (field (lit ''url'') (JObj []))"
    by (simp add: truthyOpt_def)
  have f2: "JObj [(lit ''url'', JStr [])] \<noteq> JNull
            \<and> \<not> truthyOpt (field (lit ''url'') (JObj [(lit ''url'', JStr [])]))"
    by (simp add: truthyOpt_def)
  have f3: "JObj [(lit ''url'', JNull)] \<noteq> JNull
            \<and> \<not> truthyOpt (field (lit ''url'') (JObj [(lit ''url'', JNull)]))"
    by (simp add: truthyOpt_def)
  have g: "field (lit ''url'') siteBody = Some (JStr (lit ''https://x.com''))
           \<and> truthy (JStr (lit ''https://x.com''))"
    by code_simp
  have h: "String_of nodeSample (case field (lit ''maxPages'') siteBody of
                                   None \<Rightarrow> JNum (Finite 5) | Some m \<Rightarrow> m) = Inr (lit ''5'')
           \<and> spawn nodeSample (PYTHON_BIN nodeSample)
                [JStr (SCRIPT_PATH nodeSample), JStr (lit ''https://x.com''), JStr (lit ''5''),
                 JStr (lit ''--json'')] = None"
    by code_simp
  note a = url_validation [of "JObj []" nodeSample quotePlain Unreachable,
      THEN conjunct1, THEN mp, OF f1]
  note b = url_validation [of "JObj [(lit ''url'', JStr [])]" nodeSample quotePlain Unreachable,
      THEN conjunct1, THEN mp, OF f2]
  note c = url_validation [of "JObj [(lit ''url'', JNull)]" nodeSample quotePlain Unreachable,
      THEN conjunct1, THEN mp, OF f3]
  note d = url_validation [of siteBody nodeSample quotePlain Unreachable
      "JStr (lit ''https://x.com'')" "lit ''5''", THEN conjunct2, THEN mp, OF g]
  note e = d [THEN conjunct2, THEN mp, OF h]
  from a b c d e show ?thesis by blast
qed

section \<open>The reducer\<close>

lemma stageLabel_declared:
  assumes "stringOrAbsent st" and "stringOrAbsent dt"
  shows "\<exists>l. stageLabel (orElse st (JStr [])) dt = Inr l"
proof -
  obtain k where k: "orElse st (JStr []) = JStr k"
    using assms(1)
    by (auto simp: stringOrAbsent_def orElse_def split: option.splits json.splits)
  have lk: "\<exists>l. lookupLabel (JStr k) = Inr l"
    by (simp add: lookupLabel_def split: option.splits)
  show ?thesis
    using assms(2) lk unfolding k
    by (auto simp: stageLabel_def stringOrAbsent_def truthyOpt_def
             split: option.splits json.splits)
qed

lemma applyEvent_loading:
  "applyEvent p s = Inr s' \<Longrightarrow> status s' = Loading \<Longrightarrow> status s = Loading \<and> error s' = error s"
  by (cases p) (auto simp: applyEvent_def Let_def split: if_splits sum.splits)

lemma loading_has_no_error: "reachable s \<Longrightarrow> status s = Loading \<Longrightarrow> error s = None"
proof (induction rule: reachable.induct)
  case initial
  then show ?case by (simp add: INITIAL_STATE_def)
next
  case started
  then show ?case by (simp add: loadingState_def)
next
  case (applied s p s')
  then show ?case
    using applyEvent_loading [of p s s'] by simp
next
  case (caught s e)
  then show ?case
    by (cases e) (auto simp: catchHandler_def)
qed

text \<open>
  C2. In every state the hook can hold with status Loading, a Result event (type
  \<open>result\<close> with a truthy payload) is applied without exception: the result is the
  payload, the error is absent (the branch keeps the error field, which is absent in
  every such state), and the status is Complete.
\<close>

theorem result_completes:
  assumes "reachable s" and "status s = Loading"
    and "field (lit ''type'') e = Some (JStr (lit ''result''))"
    and "field (lit ''data'') e = Some payload" and "truthy payload"
  shows "\<exists>s'. applyEvent e s = Inr s' \<and> result s' = Some payload
           \<and> error s' = None \<and> status s' = Complete \<and> progressSteps s' = progressSteps s"
proof -
  have "error s = None"
    using assms(1,2) by (rule loading_has_no_error)
  moreover have "e \<noteq> JNull"
    using assms(3) by auto
  ultimately show ?thesis
    using assms(3,4,5) by (cases e) (simp_all add: applyEvent_def truthyOpt_def lit_def)
qed

theorem result_completes_witness:
  "\<exists>s'. applyEvent resultScore loadingState = Inr s'
        \<and> result s' = Some scorePayload \<and> error s' = None \<and> status s' = Complete
        \<and> progressSteps s' = progressSteps loadingState"
proof -
  have r: "reachable loadingState"
    by (rule reachable.started)
  have l: "status loadingState = Loading"
    by (simp add: loadingState_def)
  have t: "field (lit ''type'') resultScore = Some (JStr (lit ''result''))"
    by code_simp
  have d: "field (lit ''data'') resultScore = Some scorePayload"
    by code_simp
  have p: "truthy scorePayload"
    by (simp add: scorePayload_def)
  show ?thesis
    using result_completes [OF r l t d p] .
qed

text \<open>
  C5, as the claim states it, fails: a Result frame followed by an Error frame makes the job
  Complete and then Error, and the other order makes it Error and then Complete.
\<close>

theorem both_terminal_statuses_counterexample:
  "status (snd (processParts parseTable loadingState [resultFrame])) = Complete
   \<and> processParts parseTable loadingState [resultFrame, errorFrame]
       = (None, \<lparr>status = Error, progressSteps = [], currentStage = Text (lit ''Complete''),
                 result = Some scorePayload, error = Some (JStr (lit ''boom''))\<rparr>)
   \<and> status (snd (processParts parseTable loadingState [errorFrame])) = Error
   \<and> processParts parseTable loadingState [errorFrame, resultFrame]
       = (None, \<lparr>status = Complete, progressSteps = [], currentStage = Text (lit ''Complete''),
                 result = Some scorePayload, error = Some (JStr (lit ''boom''))\<rparr>)"
  by code_simp

text \<open>
  A progress part outside the declared type also ends a Complete job in Error: with the
  stage \<open>page\<close> and the detail 123, \<open>stageLabel\<close> throws, the loop is left with the
  state as it was, and the \<open>catch\<close> handler sets Error.
\<close>

lemma ill_typed_detail_throws:
  "\<not> isErrorEvent (decodePart parseTable page123Frame)
   \<and> \<not> declared (decodePart parseTable page123Frame)
   \<and> processParts parseTable
        \<lparr>status = Complete, progressSteps = [], currentStage = Text (lit ''Complete''),
         result = Some scorePayload, error = None\<rparr> [page123Frame, progressFrame]
       = (Some (JsError (lit ''detail.replace is not a function'')),
          \<lparr>status = Complete, progressSteps = [], currentStage = Text (lit ''Complete''),
           result = Some scorePayload, error = None\<rparr>)
   \<and> status (catchHandler (JsError (lit ''detail.replace is not a function''))
        \<lparr>status = Complete, progressSteps = [], currentStage = Text (lit ''Complete''),
         result = Some scorePayload, error = None\<rparr>) = Error"
  by code_simp

lemma applyEvent_keeps_complete:
  assumes "status s = Complete" and "\<not> isErrorEvent (Some p)" and "declared (Some p)"
  shows "\<exists>s'. applyEvent p s = Inr s' \<and> status s' = Complete"
proof (cases "field (lit ''type'') p = Some (JStr (lit ''progress''))")
  case True
  with assms(3) have "stringOrAbsent (field (lit ''stage'') p)"
    and "stringOrAbsent (field (lit ''detail'') p)"
    by (simp_all add: declared_def)
  then obtain l where
    "stageLabel (orElse (field (lit ''stage'') p) (JStr [])) (field (lit ''detail'') p) = Inr l"
    using stageLabel_declared by blast
  with True assms(1,3) show ?thesis
    by (cases p) (simp_all add: applyEvent_def declared_def Let_def)
next
  case False
  with assms show ?thesis
    by (cases p) (auto simp: applyEvent_def declared_def isErrorEvent_def)
qed

lemma applyEvent_keeps_error:
  "status s = Error \<Longrightarrow> \<not> isResultEvent (Some p) \<Longrightarrow> applyEvent p s = Inr s' \<Longrightarrow> status s' = Error"
  by (cases p) (auto simp: applyEvent_def isResultEvent_def Let_def split: if_splits sum.splits)

lemma processPart_keeps_complete:
  assumes "status s = Complete" and "\<not> isErrorEvent (decodePart parse part)"
    and "declared (decodePart parse part)"
  shows "\<exists>s'. processPart parse s part = Inr s' \<and> status s' = Complete"
proof (cases "decodePart parse part")
  case None
  with assms show ?thesis by (simp add: processPart_def)
next
  case (Some p)
  with assms have "\<not> isErrorEvent (Some p)" and "declared (Some p)" by auto
  with assms(1) obtain s' where "applyEvent p s = Inr s'" and "status s' = Complete"
    using applyEvent_keeps_complete by blast
  with Some show ?thesis by (simp add: processPart_def)
qed

lemma processPart_keeps_error:
  assumes "status s = Error" and "\<not> isResultEvent (decodePart parse part)"
    and "processPart parse s part = Inr s'"
  shows "status s' = Error"
proof (cases "decodePart parse part")
  case None
  with assms show ?thesis by (simp add: processPart_def)
next
  case (Some p)
  with assms show ?thesis
    by (auto simp: processPart_def dest: applyEvent_keeps_error)
qed

lemma processParts_keeps_complete:
  "status s = Complete \<Longrightarrow>
   \<forall>part\<in>set parts. \<not> isErrorEvent (decodePart parse part) \<and> declared (decodePart parse part) \<Longrightarrow>
   fst (processParts parse s parts) = None \<and> status (snd (processParts parse s parts)) = Complete"
proof (induction parts arbitrary: s)
  case Nil
  then show ?case by simp
next
  case (Cons part parts)
  then obtain s' where s': "processPart parse s part = Inr s'" "status s' = Complete"
    using processPart_keeps_complete [of s parse part] by auto
  with Cons show ?case by simp
qed

lemma processParts_keeps_error:
  "status s = Error \<Longrightarrow> \<forall>part\<in>set parts. \<not> isResultEvent (decodePart parse part) \<Longrightarrow>
   status (snd (processParts parse s parts)) = Error"
proof (induction parts arbitrary: s)
  case Nil
  then show ?case by simp
next
  case (Cons part parts)
  show ?case
  proof (cases "processPart parse s part")
    case (Inl e)
    with Cons.prems show ?thesis by simp
  next
    case (Inr s')
    with Cons.prems have "status s' = Error"
      using processPart_keeps_error [of s parse part s'] by simp
    with Cons Inr show ?thesis by simp
  qed
qed

lemma catchHandler_error: "status s = Error \<Longrightarrow> status (catchHandler e s) = Error"
  by (cases e) (simp_all add: catchHandler_def)

text \<open>
  C5, amended. Nothing latches the status: a Result event sets Complete and an Error event
  sets Error whatever the status was, and an exception while a part is applied ends the
  job in Error. A job that is Complete stays Complete through every part that is not an
  Error event and reads at the declared type of an event (it is not \<open>null\<close>, and the
  stage and detail of a progress event are strings when present); a job that is Error
  stays Error through every part that is not a Result event, also when the loop ends in
  the \<open>catch\<close> handler.
\<close>

theorem terminal_status_kept:
  "(status s = Complete \<longrightarrow>
      (\<forall>part\<in>set parts. \<not> isErrorEvent (decodePart parse part) \<and> declared (decodePart parse part)) \<longrightarrow>
      fst (processParts parse s parts) = None \<and> status (snd (processParts parse s parts)) = Complete)
   \<and> (status s = Error \<longrightarrow>
      (\<forall>part\<in>set parts. \<not> isResultEvent (decodePart parse part)) \<longrightarrow>
      status (snd (processParts parse s parts)) = Error
      \<and> (\<forall>e. status (catchHandler e (snd (processParts parse s parts))) = Error))"
  using processParts_keeps_complete [of s parts parse] processParts_keeps_error [of s parts parse]
    catchHandler_error
  by blast

theorem terminal_status_kept_witness:
  "status (snd (processParts parseTable
       \<lparr>status = Complete, progressSteps = [], currentStage = Text (lit ''Complete''),
        result = Some scorePayload, error = None\<rparr> [progressFrame, lit ''data: [DONE]'']))
     = Complete
   \<and> status (snd (processParts parseTable
       \<lparr>status = Error, progressSteps = [], currentStage = Text (lit ''Starting analysis...''),
        result = None, error = Some (JStr (lit ''boom''))\<rparr> [progressFrame, lit ''data: null'']))
     = Error"
proof -
  let ?sC = "\<lparr>status = Complete, progressSteps = [], currentStage = Text (lit ''Complete''),
        result = Some scorePayload, error = None\<rparr>"
  let ?sE = "\<lparr>status = Error, progressSteps = [], currentStage = Text (lit ''Starting analysis...''),
        result = None, error = Some (JStr (lit ''boom''))\<rparr>"
  have c1: "status ?sC = Complete" by simp
  have c2: "\<forall>part\<in>set [progressFrame, lit ''data: [DONE]''].
              \<not> isErrorEvent (decodePart parseTable part) \<and> declared (decodePart parseTable part)"
    by code_simp
  have e1: "status ?sE = Error" by simp
  have e2: "\<forall>part\<in>set [progressFrame, lit ''data: null'']. \<not> isResultEvent (decodePart parseTable part)"
    by code_simp
  note a = terminal_status_kept [of ?sC "[progressFrame, lit ''data: [DONE]'']" parseTable,
      THEN conjunct1, THEN mp, THEN mp, OF c1 c2, THEN conjunct2]
  note b = terminal_status_kept [of ?sE "[progressFrame, lit ''data: null'']" parseTable,
      THEN conjunct2, THEN mp, THEN mp, OF e1 e2, THEN conjunct1]
  from a b show ?thesis by simp
qed

section \<open>Fault isolation\<close>







section \<open>Jobs: supersession and failures\<close>

lemma catchHandler_abort [simp]: "catchHandler AbortError s = s"
  by (simp add: catchHandler_def)

lemma settle_frame [simp]:
  "aborted (settle parse j x c) = aborted c"
  "abortRef (settle parse j x c) = abortRef c"
  "nextId (settle parse j x c) = nextId c"
  by (auto simp: settle_def throw_def readChunk_def split: phase.splits settled.splits prod.splits option.splits)

lemma settle_other_job: "k \<noteq> j \<Longrightarrow> jobs (settle parse j x c) k = jobs c k"
  by (auto simp: settle_def throw_def readChunk_def split: phase.splits settled.splits prod.splits option.splits)

lemma settle_aborted_ui: "j \<in> aborted c \<Longrightarrow> ui (settle parse j x c) = ui c"
  by (auto simp: settle_def throw_def split: phase.splits)

lemma settle_finished: "jobs c j = Finished \<Longrightarrow> settle parse j x c = c"
  by (simp add: settle_def)

lemma settle_local:
  assumes "ui c1 = ui c2" and "jobs c1 j = jobs c2 j" and "aborted c1 = aborted c2"
  shows "ui (settle parse j x c1) = ui (settle parse j x c2)
         \<and> jobs (settle parse j x c1) j = jobs (settle parse j x c2) j"
  using assms
  by (auto simp: settle_def throw_def readChunk_def split: phase.splits settled.splits prod.splits option.splits)

lemma others_done_settle: "others_done b c \<Longrightarrow> others_done b (settle parse j x c)"
  unfolding others_done_def
  by (metis settle_frame(1) settle_finished settle_other_job)

lemma settle_stale:
  assumes "others_done b c" and "j \<noteq> b"
  shows "same_job b (settle parse j x c) c"
proof -
  from assms have "jobs c j = Finished \<or> j \<in> aborted c"
    by (simp add: others_done_def)
  then have "ui (settle parse j x c) = ui c"
    using settle_finished [of c j parse x] settle_aborted_ui [of j c parse x] by auto
  moreover have "jobs (settle parse j x c) b = jobs c b"
    using assms(2) by (simp add: settle_other_job)
  ultimately show ?thesis by (simp add: same_job_def)
qed

lemma settle_same_job:
  "same_job b c1 c2 \<Longrightarrow> same_job b (settle parse b x c1) (settle parse b x c2)"
  using settle_local [of c1 c2 b parse x] by (simp add: same_job_def)

lemma same_job_trans: "same_job b c1 c2 \<Longrightarrow> same_job b c2 c3 \<Longrightarrow> same_job b c1 c3"
  by (simp add: same_job_def)

lemma run_Cons: "run parse c ((j, x) # tr) = run parse (settle parse j x c) tr"
  by (simp add: run_def)

lemma run_filter:
  "others_done b c1 \<Longrightarrow> same_job b c1 c2 \<Longrightarrow>
   same_job b (run parse c1 tr) (run parse c2 (filter (\<lambda>(j, x). j = b) tr))"
proof (induction tr arbitrary: c1 c2)
  case Nil
  then show ?case by (simp add: run_def)
next
  case (Cons jx tr)
  obtain j x where jx: "jx = (j, x)" by (cases jx)
  have od: "others_done b (settle parse j x c1)"
    using Cons.prems(1) by (rule others_done_settle)
  show ?case
  proof (cases "j = b")
    case True
    then have "same_job b (settle parse j x c1) (settle parse j x c2)"
      using Cons.prems(2) settle_same_job by blast
    from Cons.IH [OF od this] show ?thesis
      using True jx by (simp add: run_Cons)
  next
    case False
    have "same_job b (settle parse j x c1) c1"
      using Cons.prems(1) False by (rule settle_stale)
    then have "same_job b (settle parse j x c1) c2"
      using Cons.prems(2) same_job_trans by blast
    from Cons.IH [OF od this] show ?thesis
      using False jx by (simp add: run_Cons)
  qed
qed

lemma analyze_others_done: "wf c \<Longrightarrow> others_done (nextId c) (analyze c)"
  by (auto simp: wf_def others_done_def analyze_def abortCurrent_def Let_def split: option.splits)

lemma analyze_fresh: "wf c \<Longrightarrow> nextId c \<notin> aborted (analyze c)"
  by (auto simp: wf_def analyze_def abortCurrent_def Let_def split: option.splits)

lemma analyze_fields [simp]:
  "ui (analyze c) = loadingState"
  "jobs (analyze c) (nextId c) = Fetching"
  "abortRef (analyze c) = Some (nextId c)"
  by (auto simp: analyze_def abortCurrent_def Let_def split: option.splits)

lemma wf_mounted: "wf mounted"
  by (simp add: wf_def mounted_def)

lemma wf_analyze: "wf c \<Longrightarrow> wf (analyze c)"
  by (auto simp: wf_def analyze_def abortCurrent_def Let_def less_Suc_eq split: option.splits)

lemma wf_settle: "wf c \<Longrightarrow> wf (settle parse j x c)"
  unfolding wf_def
  by (metis settle_frame settle_finished settle_other_job)

lemma wf_reset: "wf c \<Longrightarrow> wf (reset c)"
  by (auto simp: wf_def reset_def abortCurrent_def split: option.splits)

lemma wf_reading0: "wf reading0"
  unfolding reading0_def by (intro wf_settle wf_analyze wf_mounted)

text \<open>
  C4, as the claim states it, fails on the mechanism. The event application compares
  nothing: handed a progress frame of job 0 in the state job 1 has set, it appends the
  step. And what is discarded is not what differs from the current job: after
  \<open>reset\<close> job 0 is still the job of \<open>abortRef\<close>, and its chunk, applied before
  the reset, is discarded after it.
\<close>

theorem epoch_guard_counterexample:
  "processPart parseTable (ui (analyze reading0)) progressFrame \<noteq> Inr (ui (analyze reading0))
   \<and> abortRef (reset reading0) = Some 0
   \<and> ui (settle parseTable 0 (Chunk progressChunk) reading0) \<noteq> ui reading0
   \<and> ui (settle parseTable 0 (Chunk progressChunk) (reset reading0)) = ui (reset reading0)"
  by code_simp

text \<open>
  C4, amended. When \<open>analyze\<close> starts job B, the controller of the job A it replaces
  is aborted. From then on whatever settles for A, or for any job but B, leaves
  AnalysisState as it is: the state after any run of settlements is the state B's own
  settlements produce. What decides is that the job's controller is aborted (its
  \<open>fetch\<close> or \<open>read\<close> rejects with an \<open>AbortError\<close> and the \<open>catch\<close> handler
  returns); no epoch is compared.
\<close>

theorem stale_jobs_silenced:
  assumes "wf c"
  shows "ui (run parse (analyze c) trace)
           = ui (run parse (analyze c) (filter (\<lambda>(j, x). j = nextId c) trace))
         \<and> (\<forall>a. abortRef c = Some a \<longrightarrow> a \<noteq> nextId c \<and> a \<in> aborted (analyze c))
         \<and> (\<forall>j x c'. j \<in> aborted c' \<longrightarrow> ui (settle parse j x c') = ui c')"
proof -
  have "same_job (nextId c) (analyze c) (analyze c)"
    by (simp add: same_job_def)
  with analyze_others_done [OF assms]
  have "same_job (nextId c) (run parse (analyze c) trace)
          (run parse (analyze c) (filter (\<lambda>(j, x). j = nextId c) trace))"
    by (rule run_filter)
  then have a: "ui (run parse (analyze c) trace)
           = ui (run parse (analyze c) (filter (\<lambda>(j, x). j = nextId c) trace))"
    by (simp add: same_job_def)
  have b: "\<forall>a. abortRef c = Some a \<longrightarrow> a \<noteq> nextId c \<and> a \<in> aborted (analyze c)"
    using assms by (auto simp: wf_def analyze_def abortCurrent_def Let_def)
  have c: "\<forall>j x c'. j \<in> aborted c' \<longrightarrow> ui (settle parse j x c') = ui c'"
    by (simp add: settle_aborted_ui)
  from a b c show ?thesis by blast
qed

theorem stale_jobs_silenced_witness:
  "ui (run parseTable (analyze reading0)
         [(0, Chunk progressChunk), (1, Responded 200 True), (0, Chunk resultChunk),
          (1, Chunk progressChunk), (0, Done), (1, Chunk resultChunk)])
     = \<lparr>status = Complete,
        progressSteps = [\<lparr>stage = JStr (lit ''domain''), detail = None,
                          label = Text (lit ''Checking domain strategy'')\<rparr>],
        currentStage = Text (lit ''Complete''), result = Some scorePayload, error = None\<rparr>
   \<and> 0 \<in> aborted (analyze reading0)"
proof -
  have n: "nextId reading0 = 1"
    by code_simp
  have a: "abortRef reading0 = Some 0"
    by code_simp
  have f: "filter (\<lambda>(j, x). j = nextId reading0)
             [(0, Chunk progressChunk), (1, Responded 200 True), (0, Chunk resultChunk),
              (1, Chunk progressChunk), (0, Done), (1, Chunk resultChunk)]
           = [(1, Responded 200 True), (1, Chunk progressChunk), (1, Chunk resultChunk)]"
    by (simp add: n)
  have r: "ui (run parseTable (analyze reading0)
                 [(1, Responded 200 True), (1, Chunk progressChunk), (1, Chunk resultChunk)])
     = \<lparr>status = Complete,
        progressSteps = [\<lparr>stage = JStr (lit ''domain''), detail = None,
                          label = Text (lit ''Checking domain strategy'')\<rparr>],
        currentStage = Text (lit ''Complete''), result = Some scorePayload, error = None\<rparr>"
    by code_simp
  note w = stale_jobs_silenced [OF wf_reading0, of parseTable
      "[(0, Chunk progressChunk), (1, Responded 200 True), (0, Chunk resultChunk),
        (1, Chunk progressChunk), (0, Done), (1, Chunk resultChunk)]"]
  from w have w1: "ui (run parseTable (analyze reading0)
         [(0, Chunk progressChunk), (1, Responded 200 True), (0, Chunk resultChunk),
          (1, Chunk progressChunk), (0, Done), (1, Chunk resultChunk)])
     = ui (run parseTable (analyze reading0)
                 [(1, Responded 200 True), (1, Chunk progressChunk), (1, Chunk resultChunk)])"
    unfolding f by (rule conjunct1)
  from w a have w2: "0 \<in> aborted (analyze reading0)"
    by blast
  from w1 r w2 show ?thesis by simp
qed

text \<open>
  C10. A response that is not OK or has no body makes the job throw \<open>HTTP <status>\<close>:
  AnalysisState becomes the loading state with status Error and that message, no progress
  step and no result. A job whose controller is aborted settles with an \<open>AbortError\<close>,
  on which the \<open>catch\<close> handler returns the state unchanged.
\<close>

theorem http_failure_sets_error:
  assumes "wf c" and "\<not> ok st \<or> \<not> hasBody"
  shows "ui (settle parse (nextId c) (Responded st hasBody) (analyze c))
           = \<lparr>status = Error, progressSteps = [], currentStage = Text (lit ''Starting analysis...''),
              result = None, error = Some (JStr (lit ''HTTP '' @ showNat st))\<rparr>
         \<and> (\<forall>j x c'. j \<in> aborted c' \<longrightarrow> ui (settle parse j x c') = ui c')
         \<and> (\<forall>s. catchHandler AbortError s = s)"
proof -
  have f: "nextId c \<notin> aborted (analyze c)"
    using assms(1) by (rule analyze_fresh)
  have "ui (settle parse (nextId c) (Responded st hasBody) (analyze c))
           = catchHandler (JsError (lit ''HTTP '' @ showNat st)) loadingState"
    using f assms(2) by (auto simp: settle_def throw_def)
  then have a: "ui (settle parse (nextId c) (Responded st hasBody) (analyze c))
           = \<lparr>status = Error, progressSteps = [], currentStage = Text (lit ''Starting analysis...''),
              result = None, error = Some (JStr (lit ''HTTP '' @ showNat st))\<rparr>"
    by (simp add: catchHandler_def loadingState_def)
  have b: "\<forall>j x c'. j \<in> aborted c' \<longrightarrow> ui (settle parse j x c') = ui c'"
    by (simp add: settle_aborted_ui)
  from a b show ?thesis by simp
qed

theorem http_failure_sets_error_witness:
  "ui (settle parseTable 0 (Responded 500 True) (analyze mounted))
     = \<lparr>status = Error, progressSteps = [], currentStage = Text (lit ''Starting analysis...''),
        result = None, error = Some (JStr (lit ''HTTP 500''))\<rparr>
   \<and> ui (settle parseTable 0 (Responded 204 False) (analyze mounted))
     = \<lparr>status = Error, progressSteps = [], currentStage = Text (lit ''Starting analysis...''),
        result = None, error = Some (JStr (lit ''HTTP 204''))\<rparr>
   \<and> ui (settle parseTable 0 (Chunk resultChunk) (analyze reading0)) = loadingState"
proof -
  have n: "nextId mounted = 0"
    by (simp add: mounted_def)
  have h1: "\<not> ok 500 \<or> \<not> True"
    by (simp add: ok_def)
  have h2: "\<not> ok 204 \<or> \<not> False"
    by simp
  have s1: "lit ''HTTP '' @ showNat 500 = lit ''HTTP 500''"
    by code_simp
  have s2: "lit ''HTTP '' @ showNat 204 = lit ''HTTP 204''"
    by code_simp
  have ab: "0 \<in> aborted (analyze reading0)"
    by code_simp
  note w1 = http_failure_sets_error [OF wf_mounted h1, of parseTable, unfolded n s1]
  note w2 = http_failure_sets_error [OF wf_mounted h2, of parseTable, unfolded n s2]
  from w1 have a: "ui (settle parseTable 0 (Responded 500 True) (analyze mounted))
     = \<lparr>status = Error, progressSteps = [], currentStage = Text (lit ''Starting analysis...''),
        result = None, error = Some (JStr (lit ''HTTP 500''))\<rparr>"
    by (rule conjunct1)
  from w2 have b: "ui (settle parseTable 0 (Responded 204 False) (analyze mounted))
     = \<lparr>status = Error, progressSteps = [], currentStage = Text (lit ''Starting analysis...''),
        result = None, error = Some (JStr (lit ''HTTP 204''))\<rparr>"
    by (rule conjunct1)
  from w1 ab have c: "ui (settle parseTable 0 (Chunk resultChunk) (analyze reading0)) = ui (analyze reading0)"
    by blast
  from a b c show ?thesis by simp
qed

section \<open>Reassembly across chunks\<close>

text \<open>
  What does hold of the two decode steps. Splitting is compositional: the parts of
  \<open>a @ b\<close> are the complete parts of \<open>a\<close> followed by the parts of the leftover of
  \<open>a\<close> with \<open>b\<close> appended. So the gateway gives the same frames however a text is cut
  (\<open>onText_chunks\<close>), and however the bytes are cut as long as no cut parts a
  character (\<open>onData_chunks_aligned\<close>); the client, whose decoder keeps the partial
  character, gives the same state and leftover however the bytes are cut
  (\<open>chunks_as_one\<close>).
\<close>

lemma onText_append: "onText parse (onText parse st a) b = onText parse st (a @ b)"
proof -
  have "pop (splitOn [NL] ((buffer st @ a) @ b))
           = (fst (pop (splitOn [NL] (buffer st @ a)))
                @ fst (pop (splitOn [NL] (snd (pop (splitOn [NL] (buffer st @ a))) @ b))),
              snd (pop (splitOn [NL] (snd (pop (splitOn [NL] (buffer st @ a))) @ b))))"
    by (rule pop_splitOn_append) simp
  then show ?thesis
    by (simp add: onText_def split: prod.splits)
qed

lemma onText_empty: "onText parse spawned [] = spawned"
  by (simp add: onText_def spawned_def pop_def)

lemma onText_chunks: "foldl (onText parse) spawned texts = onText parse spawned (concat texts)"
proof (induction texts rule: rev_induct)
  case Nil
  then show ?case by (simp add: onText_empty)
next
  case (snoc t texts)
  then show ?case by (simp add: onText_append)
qed

lemma utf8_run_append:
  "utf8_run d (a @ b)
     = (case utf8_run d a of (d1, o1) \<Rightarrow> (case utf8_run d1 b of (d2, o2) \<Rightarrow> (d2, o1 @ o2)))"
  by (induction a arbitrary: d) (auto split: prod.splits)

lemma utf8_step_idle:
  "bytes_needed d = 0 \<longrightarrow> d = utf8_init \<Longrightarrow>
   bytes_needed (fst (utf8_step d b)) = 0 \<longrightarrow> fst (utf8_step d b) = utf8_init"
  by (auto simp: utf8_step_def lead_byte_def utf8_init_def Let_def split: if_splits prod.splits)

lemma utf8_run_idle:
  "bytes_needed d = 0 \<longrightarrow> d = utf8_init \<Longrightarrow>
   bytes_needed (fst (utf8_run d bs)) = 0 \<longrightarrow> fst (utf8_run d bs) = utf8_init"
proof (induction bs arbitrary: d)
  case Nil
  then show ?case by simp
next
  case (Cons b bs)
  have "fst (utf8_run d (b # bs)) = fst (utf8_run (fst (utf8_step d b)) bs)"
    by (simp split: prod.splits)
  with Cons.IH [OF utf8_step_idle [OF Cons.prems, of b]]
  show ?case by simp
qed

lemma toString_append:
  assumes "bytes_needed (fst (utf8_run utf8_init a)) = 0"
  shows "toString (a @ b) = toString a @ toString b"
proof -
  obtain d1 o1 where r: "utf8_run utf8_init a = (d1, o1)"
    by (cases "utf8_run utf8_init a")
  have "bytes_needed utf8_init = 0 \<longrightarrow> utf8_init = utf8_init"
    by simp
  from utf8_run_idle [OF this, of a] assms r have d1: "d1 = utf8_init"
    by simp
  show ?thesis
    using r d1 by (simp add: toString_def utf8_run_append utf8_end_def utf8_init_def split: prod.splits)
qed

lemma toString_concat:
  "\<forall>c\<in>set chunks. bytes_needed (fst (utf8_run utf8_init c)) = 0 \<Longrightarrow>
   toString (concat chunks) = concat (map toString chunks)"
proof (induction chunks)
  case Nil
  show ?case by (simp add: toString_def utf8_end_def utf8_init_def)
next
  case (Cons c chunks)
  then show ?case by (simp add: toString_append)
qed

lemma onData_chunks_aligned:
  assumes "\<forall>c\<in>set chunks. bytes_needed (fst (utf8_run utf8_init c)) = 0"
  shows "foldl (onData parse) spawned chunks = onData parse spawned (concat chunks)"
proof -
  have "foldl (onData parse) st chunks = foldl (onText parse) st (map toString chunks)" for st
    by (induction chunks arbitrary: st) (simp_all add: onData_def)
  then show ?thesis
    using onText_chunks [of parse "map toString chunks"] toString_concat [OF assms]
    by (simp add: onData_def)
qed

lemma decode_stream_append:
  "decode_stream td (a @ b)
     = (case decode_stream td a of (td1, t1) \<Rightarrow>
          (case decode_stream td1 b of (td2, t2) \<Rightarrow> (td2, t1 @ t2)))"
  by (auto simp: decode_stream_def utf8_run_append split: prod.splits list.splits)

lemma processParts_append:
  "processParts parse s (p1 @ p2)
     = (case processParts parse s p1 of
          (Some e, s1) \<Rightarrow> (Some e, s1)
        | (None, s1) \<Rightarrow> processParts parse s1 p2)"
  by (induction p1 arbitrary: s) (auto split: sum.splits prod.splits option.splits)

lemma readChunk_append:
  assumes "jobs c j = Reading td buf" and "j \<notin> aborted c"
  shows "settle parse j (Chunk b) (settle parse j (Chunk a) c) = settle parse j (Chunk (a @ b)) c"
proof -
  obtain td1 t1 where d1: "decode_stream td a = (td1, t1)"
    by (cases "decode_stream td a")
  obtain td2 t2 where d2: "decode_stream td1 b = (td2, t2)"
    by (cases "decode_stream td1 b")
  have d: "decode_stream td (a @ b) = (td2, t1 @ t2)"
    by (simp add: decode_stream_append d1 d2)
  obtain P1 r1 where s1: "pop (splitOn [NL, NL] (buf @ t1)) = (P1, r1)"
    by (cases "pop (splitOn [NL, NL] (buf @ t1))")
  obtain P2 r2 where s2: "pop (splitOn [NL, NL] (r1 @ t2)) = (P2, r2)"
    by (cases "pop (splitOn [NL, NL] (r1 @ t2))")
  have "pop (splitOn [NL, NL] ((buf @ t1) @ t2)) = (P1 @ P2, r2)"
    using pop_splitOn_append [of "[NL, NL]" "buf @ t1" t2] s1 s2 by simp
  then have s: "pop (splitOn [NL, NL] (buf @ t1 @ t2)) = (P1 @ P2, r2)"
    by simp
  obtain x1 u1 where p1: "processParts parse (ui c) P1 = (x1, u1)"
    by (cases "processParts parse (ui c) P1")
  show ?thesis
  proof (cases x1)
    case (Some e)
    have first: "settle parse j (Chunk a) c = throw e j (c\<lparr>ui := u1\<rparr>)"
      using assms d1 s1 p1 Some by (simp add: settle_def readChunk_def)
    have "jobs (throw e j (c\<lparr>ui := u1\<rparr>)) j = Finished"
      by (simp add: throw_def)
    then have second: "settle parse j (Chunk b) (throw e j (c\<lparr>ui := u1\<rparr>)) = throw e j (c\<lparr>ui := u1\<rparr>)"
      by (rule settle_finished)
    have "processParts parse (ui c) (P1 @ P2) = (Some e, u1)"
      using p1 Some by (simp add: processParts_append)
    then have whole: "settle parse j (Chunk (a @ b)) c = throw e j (c\<lparr>ui := u1\<rparr>)"
      using assms d s by (simp add: settle_def readChunk_def)
    show ?thesis
      by (simp add: first second whole)
  next
    case None
    let ?c1 = "c\<lparr>ui := u1, jobs := (jobs c)(j := Reading td1 r1)\<rparr>"
    have first: "settle parse j (Chunk a) c = ?c1"
      using assms d1 s1 p1 None by (simp add: settle_def readChunk_def)
    obtain x2 u2 where p2: "processParts parse u1 P2 = (x2, u2)"
      by (cases "processParts parse u1 P2")
    have pw: "processParts parse (ui c) (P1 @ P2) = (x2, u2)"
      using p1 None p2 by (simp add: processParts_append)
    have second: "settle parse j (Chunk b) ?c1
        = (case x2 of None \<Rightarrow> ?c1\<lparr>ui := u2, jobs := (jobs ?c1)(j := Reading td2 r2)\<rparr>
                    | Some e \<Rightarrow> throw e j (?c1\<lparr>ui := u2\<rparr>))"
      using assms(2) d2 s2 p2 by (simp add: settle_def readChunk_def split: option.splits)
    have whole: "settle parse j (Chunk (a @ b)) c
        = (case x2 of None \<Rightarrow> c\<lparr>ui := u2, jobs := (jobs c)(j := Reading td2 r2)\<rparr>
                    | Some e \<Rightarrow> throw e j (c\<lparr>ui := u2\<rparr>))"
      using assms d s pw by (simp add: settle_def readChunk_def split: option.splits)
    show ?thesis
      unfolding first second whole by (simp add: throw_def split: option.splits)
  qed
qed

lemma chunks_as_one:
  assumes "jobs c j = Reading td buf" and "j \<notin> aborted c"
  shows "run parse c ((j, Chunk a) # map (\<lambda>b. (j, Chunk b)) chunks)
           = settle parse j (Chunk (a @ concat chunks)) c"
proof (induction chunks rule: rev_induct)
  case Nil
  then show ?case by (simp add: run_def)
next
  case (snoc b chunks)
  have "run parse c ((j, Chunk a) # map (\<lambda>b. (j, Chunk b)) (chunks @ [b]))
          = settle parse j (Chunk b) (run parse c ((j, Chunk a) # map (\<lambda>b. (j, Chunk b)) chunks))"
    by (simp add: run_def)
  also have "\<dots> = settle parse j (Chunk b) (settle parse j (Chunk (a @ concat chunks)) c)"
    by (simp add: snoc)
  also have "\<dots> = settle parse j (Chunk ((a @ concat chunks) @ b)) c"
    using assms by (rule readChunk_append)
  finally show ?case by simp
qed

text \<open>
  C1 at a failing input. The worker writes the line
  \<open>{"type":"progress","stage":"\<close>, U+00E9, \<open>"}\<close> in UTF-8 and the pipe delivers it in
  two chunks that part the two bytes of U+00E9. The local gateway decodes each chunk by
  itself and forwards a frame whose stage is two replacement characters; the whole line
  in one chunk is forwarded as written. The streaming decoder of the client gives U+00E9
  for the same two chunks.
\<close>

theorem split_character_diverges:
  \<open>queue (ctrl (foldl (onData parseTable) spawned [accentHead, accentTail]))
     = [frame (lit ''{"type":"progress","stage":"'' @ [0xFFFD, 0xFFFD] @ lit ''"}'')]
   \<and> queue (ctrl (foldl (onData parseTable) spawned [accentHead @ accentTail]))
     = [frame (lit ''{"type":"progress","stage":"'' @ [0xE9] @ lit ''"}'')]
   \<and> toString [0xC3] @ toString [0xA9] = [0xFFFD, 0xFFFD]
   \<and> toString [0xC3, 0xA9] = [0xE9]
   \<and> snd (decode_stream newTextDecoder [0xC3])
       @ snd (decode_stream (fst (decode_stream newTextDecoder [0xC3])) [0xA9]) = [0xE9]\<close>
  by code_simp

text \<open>
  C9 at a failing input, the one of C1. The worker's line, U+00E9 in its stage, is JSON
  and parses; cut between the two bytes of the character, it is forwarded with two
  replacement characters in its place, not as the text of the line. A line whose
  chunks part no character is forwarded as its trimmed text (\<open>forwardLine_verbatim\<close>
  with \<open>onData_chunks_aligned\<close>).
\<close>

theorem accent_line_not_verbatim:
  \<open>toString (accentHead @ accentTail) = accentLine @ [NL]
   \<and> parseTable (trim accentLine) = Some (progressStage [0xE9])
   \<and> queue (ctrl (foldl (onData parseTable) spawned [accentHead, accentTail]))
       \<noteq> [frame (trim accentLine)]
   \<and> outbound (foldl (onData parseTable) spawned [accentHead, accentTail])
       = lit ''data: {"type":"progress","stage":"'' @ [0xFFFD, 0xFFFD] @ lit ''"}'' @ [NL, NL]\<close>
  by code_simp

end
